theory Spec2Isabelle
  imports Main
begin

section \<open>Constants and colours of \<^verbatim>\<open>main.py\<close>\<close>

definition GRID_HEIGHT :: int where
  "GRID_HEIGHT = 20"

definition GRID_WIDTH :: int where
  "GRID_WIDTH = 10"

definition START_POSITION :: "int \<times> int" where
  "START_POSITION = (0, 4)"

datatype Color =
  LINE_COLOR | BACKGROUND | RED | GREEN | BLUE | CYAN | PURPLE | YELLOW | ORANGE

text \<open>The two exceptions the modelled code can raise: an attribute that a class does
  not define, and \<^verbatim>\<open>min\<close>/\<^verbatim>\<open>max\<close> of an empty sequence.\<close>

datatype py_error = AttributeError | ValueError

section \<open>\<^verbatim>\<open>SingleBlock\<close>\<close>

text \<open>Python's fields \<^verbatim>\<open>i\<close>, \<^verbatim>\<open>j\<close>, \<^verbatim>\<open>color\<close>; prefixed here, since a record field is a
  constant of the theory.\<close>

record SingleBlock =
  block_i :: int
  block_j :: int
  block_color :: Color

definition coords :: "SingleBlock \<Rightarrow> int \<times> int" where
  "coords b = (block_i b, block_j b)"

text \<open>The setter of the \<^verbatim>\<open>coords\<close> property: \<^verbatim>\<open>self.i, self.j = new_coords\<close>.\<close>

definition set_coords :: "SingleBlock \<Rightarrow> int \<times> int \<Rightarrow> SingleBlock" where
  "set_coords b new_coords = b\<lparr>block_i := fst new_coords, block_j := snd new_coords\<rparr>"

definition block_step_down :: "SingleBlock \<Rightarrow> SingleBlock" where
  "block_step_down b =
     \<lparr>block_i = block_i b + 1, block_j = block_j b, block_color = block_color b\<rparr>"

definition block_step_left :: "SingleBlock \<Rightarrow> SingleBlock" where
  "block_step_left b =
     \<lparr>block_i = block_i b, block_j = block_j b - 1, block_color = block_color b\<rparr>"

definition block_step_right :: "SingleBlock \<Rightarrow> SingleBlock" where
  "block_step_right b =
     \<lparr>block_i = block_i b, block_j = block_j b + 1, block_color = block_color b\<rparr>"

section \<open>The tetromino classes\<close>

text \<open>One constructor per subclass of \<^verbatim>\<open>Tetromino\<close>. The class attributes are functions
  of the class. \<^verbatim>\<open>Square\<close> assigns no \<^verbatim>\<open>center\<close>, and the base class only annotates the
  name, so the attribute does not exist there.\<close>

datatype shape = LShaped | JShaped | SShaped | TShaped | ZShaped | IShaped | Square

fun shape_color :: "shape \<Rightarrow> Color" where
  "shape_color LShaped = BLUE"
| "shape_color JShaped = ORANGE"
| "shape_color SShaped = GREEN"
| "shape_color TShaped = PURPLE"
| "shape_color ZShaped = RED"
| "shape_color IShaped = CYAN"
| "shape_color Square = YELLOW"

fun initial_coords :: "shape \<Rightarrow> (int \<times> int) list" where
  "initial_coords LShaped = [(0, 0), (1, 0), (2, 0), (2, 1)]"
| "initial_coords JShaped = [(0, 1), (1, 1), (2, 1), (2, 0)]"
| "initial_coords SShaped = [(0, 0), (1, 0), (1, 1), (2, 1)]"
| "initial_coords TShaped = [(0, 1), (1, 0), (1, 1), (2, 1)]"
| "initial_coords ZShaped = [(0, 1), (1, 1), (1, 0), (2, 0)]"
| "initial_coords IShaped = [(0, 0), (1, 0), (2, 0), (3, 0)]"
| "initial_coords Square = [(0, 0), (1, 0), (0, 1), (1, 1)]"

fun center :: "shape \<Rightarrow> (int \<times> int) option" where
  "center LShaped = Some (1, 0)"
| "center JShaped = Some (1, 1)"
| "center SShaped = Some (1, 0)"
| "center TShaped = Some (1, 1)"
| "center ZShaped = Some (1, 1)"
| "center IShaped = Some (1, 0)"
| "center Square = None"

section \<open>\<^verbatim>\<open>Tetromino\<close>\<close>

text \<open>\<^verbatim>\<open>other_positions\<close> is the grid's set of occupied coordinates, \<^verbatim>\<open>tet_done\<close> is the
  field \<^verbatim>\<open>done\<close>, \<^verbatim>\<open>tet_i\<close> and \<^verbatim>\<open>tet_j\<close> are the fields \<^verbatim>\<open>i\<close> and \<^verbatim>\<open>j\<close>, and \<^verbatim>\<open>variant\<close>
  is the object's class.\<close>

record Tetromino =
  variant :: shape
  tet_i :: int
  tet_j :: int
  blocks :: "SingleBlock list"
  other_positions :: "(int \<times> int) set"
  tet_done :: bool

text \<open>\<^verbatim>\<open>_center_coords\<close>: reading \<^verbatim>\<open>self.center\<close> raises where the class has none.\<close>

definition center_coords :: "shape \<Rightarrow> py_error + (int \<times> int) list" where
  "center_coords s =
     (case center s of
        None \<Rightarrow> Inl AttributeError
      | Some (x, y) \<Rightarrow> Inr (map (\<lambda>(xx, yy). (xx - x, yy - y)) (initial_coords s)))"

text \<open>\<^verbatim>\<open>Tetromino.__init__\<close>, called as \<^verbatim>\<open>cls(i, j, other_positions)\<close>.\<close>

definition new_tetromino ::
  "shape \<Rightarrow> int \<Rightarrow> int \<Rightarrow> (int \<times> int) set \<Rightarrow> py_error + Tetromino" where
  "new_tetromino s i0 j0 other =
     (case center_coords s of
        Inl e \<Rightarrow> Inl e
      | Inr cs \<Rightarrow>
          Inr \<lparr>variant = s, tet_i = i0, tet_j = j0,
               blocks = map (\<lambda>(di, dj).
                 \<lparr>block_i = i0 + di, block_j = j0 + dj, block_color = shape_color s\<rparr>) cs,
               other_positions = other, tet_done = False\<rparr>)"

definition step_down :: "Tetromino \<Rightarrow> Tetromino" where
  "step_down t =
     (let new_blocks = map block_step_down (blocks t) in
      if list_ex (\<lambda>block. block_i block \<ge> GRID_HEIGHT) new_blocks
      then t\<lparr>tet_done := True\<rparr>
      else if list_ex (\<lambda>block. coords block \<in> other_positions t) new_blocks
      then t\<lparr>tet_done := True\<rparr>
      else t\<lparr>tet_i := tet_i t + 1, blocks := new_blocks\<rparr>)"

definition step_left :: "Tetromino \<Rightarrow> Tetromino" where
  "step_left t =
     (let new_blocks = map block_step_left (blocks t) in
      if list_ex (\<lambda>block. block_j block < 0) new_blocks
      then t
      else if list_ex (\<lambda>block. coords block \<in> other_positions t) new_blocks
      then t
      else t\<lparr>tet_j := tet_j t - 1, blocks := new_blocks\<rparr>)"

definition step_right :: "Tetromino \<Rightarrow> Tetromino" where
  "step_right t =
     (let new_blocks = map block_step_right (blocks t) in
      if list_ex (\<lambda>block. block_j block > GRID_WIDTH - 1) new_blocks
      then t
      else if list_ex (\<lambda>block. coords block \<in> other_positions t) new_blocks
      then t
      else t\<lparr>tet_j := tet_j t + 1, blocks := new_blocks\<rparr>)"

text \<open>\<^verbatim>\<open>min\<close> and \<^verbatim>\<open>max\<close> of a sequence: a running minimum from the first element on, and
  \<^verbatim>\<open>ValueError\<close> on an empty one.\<close>

definition py_min :: "int list \<Rightarrow> py_error + int" where
  "py_min xs = (case xs of [] \<Rightarrow> Inl ValueError | x # ys \<Rightarrow> Inr (fold min ys x))"

definition py_max :: "int list \<Rightarrow> py_error + int" where
  "py_max xs = (case xs of [] \<Rightarrow> Inl ValueError | x # ys \<Rightarrow> Inr (fold max ys x))"

definition shift_j :: "int \<Rightarrow> SingleBlock \<Rightarrow> SingleBlock" where
  "shift_j d b = b\<lparr>block_j := block_j b - d\<rparr>"

definition shift_i :: "int \<Rightarrow> SingleBlock \<Rightarrow> SingleBlock" where
  "shift_i d b = b\<lparr>block_i := block_i b - d\<rparr>"

text \<open>\<^verbatim>\<open>_check_boundaries\<close>: three checks, each returning once it has shifted the blocks.
  \<^verbatim>\<open>shift_j d\<close> is the statement \<^verbatim>\<open>block.j -= d\<close>, \<^verbatim>\<open>shift_i d\<close> is \<^verbatim>\<open>block.i -= d\<close>.\<close>

definition check_boundaries :: "Tetromino \<Rightarrow> py_error + Tetromino" where
  "check_boundaries t =
     (case py_min (map block_j (blocks t)) of
        Inl e \<Rightarrow> Inl e
      | Inr min_j \<Rightarrow>
          if min_j < 0 then Inr (t\<lparr>blocks := map (shift_j min_j) (blocks t)\<rparr>)
          else
            (case py_max (map block_j (blocks t)) of
               Inl e \<Rightarrow> Inl e
             | Inr max_j \<Rightarrow>
                 if max_j > GRID_WIDTH - 1
                 then Inr (t\<lparr>blocks := map (shift_j (1 + max_j - GRID_WIDTH)) (blocks t)\<rparr>)
                 else
                   (case py_max (map block_i (blocks t)) of
                      Inl e \<Rightarrow> Inl e
                    | Inr max_i \<Rightarrow>
                        if max_i > GRID_HEIGHT - 1
                        then Inr (t\<lparr>blocks :=
                               map (shift_i (1 + max_i - GRID_HEIGHT)) (blocks t)\<rparr>)
                        else Inr t)))"

text \<open>The loop bodies of the two rotations: \<^verbatim>\<open>ii\<close> and \<^verbatim>\<open>jj\<close> are read before the block is
  assigned its new coordinates.\<close>

definition turn_clockwise :: "Tetromino \<Rightarrow> SingleBlock \<Rightarrow> SingleBlock" where
  "turn_clockwise t block =
     (let ii = block_i block - tet_i t; jj = block_j block - tet_j t
      in set_coords block (tet_i t + jj, tet_j t - ii))"

definition turn_anticlockwise :: "Tetromino \<Rightarrow> SingleBlock \<Rightarrow> SingleBlock" where
  "turn_anticlockwise t block =
     (let ii = block_i block - tet_i t; jj = block_j block - tet_j t
      in set_coords block (tet_i t - jj, tet_j t + ii))"

definition rotate_clockwise :: "Tetromino \<Rightarrow> py_error + Tetromino" where
  "rotate_clockwise t = check_boundaries (t\<lparr>blocks := map (turn_clockwise t) (blocks t)\<rparr>)"

definition rotate_anticlockwise :: "Tetromino \<Rightarrow> py_error + Tetromino" where
  "rotate_anticlockwise t =
     check_boundaries (t\<lparr>blocks := map (turn_anticlockwise t) (blocks t)\<rparr>)"

section \<open>\<^verbatim>\<open>Grid\<close>\<close>

text \<open>The fields the game logic reads and writes: \<^verbatim>\<open>blocks\<close> (here \<^verbatim>\<open>grid_blocks\<close>) and
  \<^verbatim>\<open>positions\<close>. The pixel sizes are used by the drawing methods only, and
  \<^verbatim>\<open>active_tetromino\<close> is the loop's own variable, kept in the game state below.\<close>

record Grid =
  grid_blocks :: "SingleBlock list"
  positions :: "(int \<times> int) set"

definition new_grid :: Grid where
  "new_grid = \<lparr>grid_blocks = [], positions = {}\<rparr>"

definition update_blocks :: "Grid \<Rightarrow> SingleBlock list \<Rightarrow> Grid" where
  "update_blocks g new_blocks =
     g\<lparr>grid_blocks := grid_blocks g @ new_blocks,
       positions := fold (\<lambda>block s. insert (coords block) s) new_blocks (positions g)\<rparr>"

section \<open>The loop of \<^verbatim>\<open>main\<close>\<close>

text \<open>What the loop reads from outside is an input of the model: the events that
  \<^verbatim>\<open>pygame.event.get()\<close> returns in one pass of the inner loop, and the number that
  \<^verbatim>\<open>random.choice\<close> draws. Drawing and sleeping change nothing the loop reads.\<close>

datatype key = K_x | K_y | K_LEFT | K_RIGHT | K_DOWN | K_other

datatype event = QUIT | KEYDOWN key | OTHER_EVENT

record Game =
  grid :: Grid
  active_tetromino :: Tetromino
  counter :: int
  game_over :: bool
  returned :: bool

definition tetromino_classes :: "shape list" where
  "tetromino_classes = [SShaped, TShaped, ZShaped, LShaped, IShaped, JShaped]"

text \<open>\<^verbatim>\<open>random.choice\<close> returns the element at a drawn index below the length.\<close>

definition random_choice :: "nat \<Rightarrow> 'a list \<Rightarrow> 'a" where
  "random_choice r xs = xs ! (r mod length xs)"

text \<open>The first two statements of the outer loop's body.\<close>

definition spawn :: "nat \<Rightarrow> Grid \<Rightarrow> py_error + Tetromino" where
  "spawn r g =
     (let tetromino_class = random_choice r tetromino_classes
      in new_tetromino tetromino_class (fst START_POSITION) (snd START_POSITION)
           (positions g))"

text \<open>The body of \<^verbatim>\<open>if event.type == pygame.KEYDOWN\<close>: an \<^verbatim>\<open>if\<close>/\<^verbatim>\<open>elif\<close> for the two
  rotations, then three separate \<^verbatim>\<open>if\<close>s.\<close>

definition on_keydown :: "key \<Rightarrow> Tetromino \<Rightarrow> py_error + Tetromino" where
  "on_keydown k t =
     (case (if k = K_x then rotate_clockwise t
            else if k = K_y then rotate_anticlockwise t
            else Inr t) of
        Inl e \<Rightarrow> Inl e
      | Inr t1 \<Rightarrow>
          (let t2 = (if k = K_LEFT then step_left t1 else t1);
               t3 = (if k = K_RIGHT then step_right t2 else t2)
           in Inr (if k = K_DOWN then step_down t3 else t3)))"

text \<open>The \<^verbatim>\<open>for event in pygame.event.get()\<close> loop. The flag of the result says that a
  \<^verbatim>\<open>QUIT\<close> event made \<^verbatim>\<open>main\<close> return.\<close>

fun process_events :: "event list \<Rightarrow> Tetromino \<Rightarrow> py_error + (bool \<times> Tetromino)" where
  "process_events [] t = Inr (False, t)"
| "process_events (QUIT # evs) t = Inr (True, t)"
| "process_events (KEYDOWN k # evs) t =
     (case on_keydown k t of Inl e \<Rightarrow> Inl e | Inr t' \<Rightarrow> process_events evs t')"
| "process_events (OTHER_EVENT # evs) t = process_events evs t"

text \<open>The part of the inner loop's body after the timer: when the piece is done, its
  blocks go to the grid and the start position is looked up; the loop is left, and
  unless the game is over the outer loop constructs the next piece from the draw \<^verbatim>\<open>r\<close>.
  The grid's set is the very object the piece holds as \<^verbatim>\<open>other_positions\<close>, so the
  piece that stays in the final state sees the updated set.\<close>

definition settle :: "nat \<Rightarrow> Game \<Rightarrow> py_error + Game" where
  "settle r g =
     (if tet_done (active_tetromino g)
      then
        (let grid' = update_blocks (grid g) (blocks (active_tetromino g)) in
         if START_POSITION \<in> positions grid'
         then Inr (g\<lparr>grid := grid',
                     active_tetromino :=
                       (active_tetromino g)\<lparr>other_positions := positions grid'\<rparr>,
                     game_over := True\<rparr>)
         else
           (case spawn r grid' of
              Inl e \<Rightarrow> Inl e
            | Inr t \<Rightarrow> Inr (g\<lparr>grid := grid', active_tetromino := t\<rparr>)))
      else Inr g)"

text \<open>One pass of the inner loop: the events, the timer that steps the piece down when
  the counter has reached 30, the counter, and the check of \<^verbatim>\<open>done\<close>. Once \<^verbatim>\<open>main\<close> has
  returned or the game is over no pass runs.\<close>

definition frame :: "nat \<Rightarrow> event list \<Rightarrow> Game \<Rightarrow> py_error + Game" where
  "frame r evs g =
     (if game_over g \<or> returned g then Inr g
      else
        (case process_events evs (active_tetromino g) of
           Inl e \<Rightarrow> Inl e
         | Inr (True, t) \<Rightarrow> Inr (g\<lparr>active_tetromino := t, returned := True\<rparr>)
         | Inr (False, t) \<Rightarrow>
             (let t' = (if counter g = 30 then step_down t else t);
                  counter' = (if counter g = 30 then 0 else counter g) + 1
              in settle r (g\<lparr>active_tetromino := t', counter := counter'\<rparr>))))"

text \<open>The state before the first pass: an empty grid, the counter at 0 and the first
  piece.\<close>

definition start :: "nat \<Rightarrow> py_error + Game" where
  "start r =
     (case spawn r new_grid of
        Inl e \<Rightarrow> Inl e
      | Inr t \<Rightarrow>
          Inr \<lparr>grid = new_grid, active_tetromino = t, counter = 0,
               game_over = False, returned = False\<rparr>)"

fun frames :: "(nat \<times> event list) list \<Rightarrow> Game \<Rightarrow> py_error + Game" where
  "frames [] g = Inr g"
| "frames ((r, evs) # rest) g =
     (case frame r evs g of Inl e \<Rightarrow> Inl e | Inr g' \<Rightarrow> frames rest g')"

text \<open>\<^verbatim>\<open>main\<close> run on a first draw and on the inputs of finitely many passes.\<close>

definition main :: "nat \<Rightarrow> (nat \<times> event list) list \<Rightarrow> py_error + Game" where
  "main r0 passes = (case start r0 of Inl e \<Rightarrow> Inl e | Inr g \<Rightarrow> frames passes g)"

section \<open>Predicates and examples used in the statements\<close>

text \<open>The offset of a block from the reference coordinate of its piece, as the
  rotations compute it.\<close>

definition offset :: "Tetromino \<Rightarrow> SingleBlock \<Rightarrow> int \<times> int" where
  "offset t b = (block_i b - tet_i t, block_j b - tet_j t)"

text \<open>Every block of a list lies in a column of the grid; any two blocks of a list are
  at most three rows and three columns apart; and the two together with the four blocks
  and a class the loop can draw.\<close>

definition cols_ok :: "SingleBlock list \<Rightarrow> bool" where
  "cols_ok bs = list_all (\<lambda>b. 0 \<le> block_j b \<and> block_j b < GRID_WIDTH) bs"

definition compact :: "SingleBlock list \<Rightarrow> bool" where
  "compact bs =
     list_all (\<lambda>b. list_all (\<lambda>c. \<bar>block_i b - block_i c\<bar> \<le> 3 \<and> \<bar>block_j b - block_j c\<bar> \<le> 3) bs) bs"

definition piece_ok :: "Tetromino \<Rightarrow> bool" where
  "piece_ok t \<longleftrightarrow>
     length (blocks t) = 4 \<and> compact (blocks t) \<and> cols_ok (blocks t) \<and>
     variant t \<in> set tetromino_classes"

text \<open>The piece \<^verbatim>\<open>IShaped(0, 4, set())\<close> as the constructor leaves it, the same piece
  after seventeen steps down, and an L piece in the lower left corner.\<close>

definition I_spawned :: Tetromino where
  "I_spawned =
     \<lparr>variant = IShaped, tet_i = 0, tet_j = 4,
      blocks = [\<lparr>block_i = - 1, block_j = 4, block_color = CYAN\<rparr>,
                \<lparr>block_i = 0, block_j = 4, block_color = CYAN\<rparr>,
                \<lparr>block_i = 1, block_j = 4, block_color = CYAN\<rparr>,
                \<lparr>block_i = 2, block_j = 4, block_color = CYAN\<rparr>],
      other_positions = {}, tet_done = False\<rparr>"

definition I_landed :: Tetromino where
  "I_landed =
     \<lparr>variant = IShaped, tet_i = 17, tet_j = 4,
      blocks = [\<lparr>block_i = 16, block_j = 4, block_color = CYAN\<rparr>,
                \<lparr>block_i = 17, block_j = 4, block_color = CYAN\<rparr>,
                \<lparr>block_i = 18, block_j = 4, block_color = CYAN\<rparr>,
                \<lparr>block_i = 19, block_j = 4, block_color = CYAN\<rparr>],
      other_positions = {}, tet_done = False\<rparr>"

definition L_corner :: Tetromino where
  "L_corner =
     \<lparr>variant = LShaped, tet_i = 18, tet_j = 0,
      blocks = [\<lparr>block_i = 17, block_j = 0, block_color = BLUE\<rparr>,
                \<lparr>block_i = 18, block_j = 0, block_color = BLUE\<rparr>,
                \<lparr>block_i = 19, block_j = 0, block_color = BLUE\<rparr>,
                \<lparr>block_i = 19, block_j = 1, block_color = BLUE\<rparr>],
      other_positions = {}, tet_done = False\<rparr>"

definition L_turned :: Tetromino where
  "L_turned =
     \<lparr>variant = LShaped, tet_i = 18, tet_j = 0,
      blocks = [\<lparr>block_i = 18, block_j = 1, block_color = BLUE\<rparr>,
                \<lparr>block_i = 18, block_j = 0, block_color = BLUE\<rparr>,
                \<lparr>block_i = 18, block_j = - 1, block_color = BLUE\<rparr>,
                \<lparr>block_i = 19, block_j = - 1, block_color = BLUE\<rparr>],
      other_positions = {}, tet_done = False\<rparr>"

definition I_left_edge :: Tetromino where
  "I_left_edge =
     \<lparr>variant = IShaped, tet_i = 0, tet_j = 0,
      blocks = [\<lparr>block_i = - 1, block_j = 0, block_color = CYAN\<rparr>,
                \<lparr>block_i = 0, block_j = 0, block_color = CYAN\<rparr>,
                \<lparr>block_i = 1, block_j = 0, block_color = CYAN\<rparr>,
                \<lparr>block_i = 2, block_j = 0, block_color = CYAN\<rparr>],
      other_positions = {}, tet_done = False\<rparr>"

text \<open>What holds of the loop's state between two passes: the piece is well formed, the
  locked blocks lie in the grid's columns, the piece holds the grid's set, the set is the
  set of the locked blocks' coordinates, and the flag says whether the start position is
  taken.\<close>

definition game_ok :: "Game \<Rightarrow> bool" where
  "game_ok g \<longleftrightarrow>
     piece_ok (active_tetromino g) \<and> cols_ok (grid_blocks (grid g)) \<and>
     other_positions (active_tetromino g) = positions (grid g) \<and>
     positions (grid g) = coords ` set (grid_blocks (grid g)) \<and>
     (game_over g \<longleftrightarrow> START_POSITION \<in> positions (grid g))"

section \<open>Auxiliary facts\<close>

lemma list_ex_map: "list_ex P (map f xs) = (\<exists>x \<in> set xs. P (f x))"
  by (simp add: list_ex_iff)

lemma py_min_Min: "xs \<noteq> [] \<Longrightarrow> py_min xs = Inr (Min (set xs))"
  by (cases xs) (simp_all add: py_min_def Min.set_eq_fold [symmetric])

lemma py_max_Max: "xs \<noteq> [] \<Longrightarrow> py_max xs = Inr (Max (set xs))"
  by (cases xs) (simp_all add: py_max_def Max.set_eq_fold [symmetric])

lemma cols_okD: "cols_ok bs \<Longrightarrow> b \<in> set bs \<Longrightarrow> 0 \<le> block_j b \<and> block_j b < GRID_WIDTH"
  by (simp add: cols_ok_def list_all_iff)

lemma cols_ok_map:
  assumes "\<And>b. b \<in> set bs \<Longrightarrow> 0 \<le> block_j (f b) \<and> block_j (f b) < GRID_WIDTH"
  shows "cols_ok (map f bs)"
  using assms by (simp add: cols_ok_def list_all_iff)

lemma compactD:
  "compact bs \<Longrightarrow> b \<in> set bs \<Longrightarrow> c \<in> set bs \<Longrightarrow>
     \<bar>block_i b - block_i c\<bar> \<le> 3 \<and> \<bar>block_j b - block_j c\<bar> \<le> 3"
  by (simp add: compact_def list_all_iff)

lemma compact_map_translate:
  assumes "compact bs"
    and "\<And>b. block_i (f b) = block_i b + di" and "\<And>b. block_j (f b) = block_j b + dj"
  shows "compact (map f bs)"
  using assms by (simp add: compact_def list_all_iff)

lemma compact_map_turn:
  assumes "compact bs"
    and "\<And>b. block_i (f b) = ci + s * block_j b" and "\<And>b. block_j (f b) = cj - s * block_i b"
    and "s = 1 \<or> s = - 1"
  shows "compact (map f bs)"
proof -
  have "\<bar>s * x - s * y\<bar> = \<bar>x - y\<bar>" for x y :: int
    using assms(4) by auto
  then have "\<bar>(ci + s * x) - (ci + s * y)\<bar> = \<bar>x - y\<bar>"
    and "\<bar>(cj - s * x) - (cj - s * y)\<bar> = \<bar>x - y\<bar>" for x y :: int
    by (simp_all add: abs_minus_commute)
  with assms(1-3) show ?thesis
    by (simp add: compact_def list_all_iff)
qed

text \<open>What \<open>check_boundaries\<close> returns on a piece that has a block.\<close>

lemma check_boundaries_Inr:
  assumes "blocks t \<noteq> []"
  shows "check_boundaries t =
     Inr (if Min (block_j ` set (blocks t)) < 0
          then t\<lparr>blocks := map (shift_j (Min (block_j ` set (blocks t)))) (blocks t)\<rparr>
          else if Max (block_j ` set (blocks t)) > GRID_WIDTH - 1
          then t\<lparr>blocks :=
                 map (shift_j (1 + Max (block_j ` set (blocks t)) - GRID_WIDTH)) (blocks t)\<rparr>
          else if Max (block_i ` set (blocks t)) > GRID_HEIGHT - 1
          then t\<lparr>blocks :=
                 map (shift_i (1 + Max (block_i ` set (blocks t)) - GRID_HEIGHT)) (blocks t)\<rparr>
          else t)"
proof -
  have j: "map block_j (blocks t) \<noteq> []" and i: "map block_i (blocks t) \<noteq> []"
    using assms by simp_all
  show ?thesis
    unfolding check_boundaries_def py_min_Min [OF j] py_max_Max [OF j] py_max_Max [OF i]
    by simp
qed

lemma check_boundaries_ok:
  assumes len: "length (blocks t) = 4" and cp: "compact (blocks t)"
  shows "\<exists>t'. check_boundaries t = Inr t' \<and> length (blocks t') = 4 \<and> compact (blocks t') \<and>
           cols_ok (blocks t') \<and> variant t' = variant t \<and>
           other_positions t' = other_positions t \<and> tet_done t' = tet_done t \<and>
           tet_i t' = tet_i t \<and> tet_j t' = tet_j t"
proof -
  let ?J = "block_j ` set (blocks t)"
  from len have ne: "blocks t \<noteq> []" by auto
  then have fin: "finite ?J" and neJ: "?J \<noteq> {}" by simp_all
  have lo: "Min ?J \<le> block_j b" and hi: "block_j b \<le> Max ?J" if "b \<in> set (blocks t)" for b
    using that fin by simp_all
  obtain bmin where bmin: "bmin \<in> set (blocks t)" "block_j bmin = Min ?J"
    using Min_in [OF fin neJ] by auto
  obtain bmax where bmax: "bmax \<in> set (blocks t)" "block_j bmax = Max ?J"
    using Max_in [OF fin neJ] by auto
  have span_lo: "block_j b - Min ?J \<le> 3" if "b \<in> set (blocks t)" for b
    using compactD [OF cp that bmin(1)] bmin(2) by (simp add: abs_le_iff)
  have span_hi: "Max ?J - block_j b \<le> 3" if "b \<in> set (blocks t)" for b
    using compactD [OF cp bmax(1) that] bmax(2) by (simp add: abs_le_iff)
  have cj: "compact (map (shift_j d) (blocks t))" for d
    by (rule compact_map_translate [OF cp, where di = 0 and dj = "- d"])
       (simp_all add: shift_j_def)
  have ci: "compact (map (shift_i d) (blocks t))" for d
    by (rule compact_map_translate [OF cp, where di = "- d" and dj = 0])
       (simp_all add: shift_i_def)
  show ?thesis
  proof (cases "Min ?J < 0")
    case True
    have "cols_ok (map (shift_j (Min ?J)) (blocks t))"
    proof (rule cols_ok_map)
      fix b assume b: "b \<in> set (blocks t)"
      have "block_j (shift_j (Min ?J) b) = block_j b - Min ?J"
        by (simp add: shift_j_def)
      with lo [OF b] span_lo [OF b]
      show "0 \<le> block_j (shift_j (Min ?J) b) \<and> block_j (shift_j (Min ?J) b) < GRID_WIDTH"
        unfolding GRID_WIDTH_def by linarith
    qed
    with True cj len show ?thesis
      by (simp add: check_boundaries_Inr [OF ne])
  next
    case False
    note nolow = this
    show ?thesis
    proof (cases "Max ?J > GRID_WIDTH - 1")
      case True
      have "cols_ok (map (shift_j (1 + Max ?J - GRID_WIDTH)) (blocks t))"
      proof (rule cols_ok_map)
        fix b assume b: "b \<in> set (blocks t)"
        have "block_j (shift_j (1 + Max ?J - GRID_WIDTH) b) =
              block_j b - (1 + Max ?J - GRID_WIDTH)"
          by (simp add: shift_j_def)
        with hi [OF b] span_hi [OF b]
        show "0 \<le> block_j (shift_j (1 + Max ?J - GRID_WIDTH) b) \<and>
              block_j (shift_j (1 + Max ?J - GRID_WIDTH) b) < GRID_WIDTH"
          unfolding GRID_WIDTH_def by linarith
      qed
      with True nolow cj len show ?thesis
        by (simp add: check_boundaries_Inr [OF ne])
    next
      case False
      have "cols_ok (map (\<lambda>b. b) (blocks t))"
      proof (rule cols_ok_map)
        fix b assume b: "b \<in> set (blocks t)"
        with lo [OF b] hi [OF b] nolow False
        show "0 \<le> block_j b \<and> block_j b < GRID_WIDTH" by linarith
      qed
      then have ok: "cols_ok (blocks t)" by simp
      then have "cols_ok (map (shift_i d) (blocks t))" for d
        by (simp add: cols_ok_def list_all_iff shift_i_def)
      with ok False nolow ci cp len show ?thesis
        by (simp add: check_boundaries_Inr [OF ne])
    qed
  qed
qed

lemma step_left_eq:
  "step_left t =
     (if (\<exists>b \<in> set (blocks t).
            block_j b - 1 < 0 \<or> (block_i b, block_j b - 1) \<in> other_positions t)
      then t
      else t\<lparr>tet_j := tet_j t - 1,
             blocks := map (\<lambda>b. b\<lparr>block_j := block_j b - 1\<rparr>) (blocks t)\<rparr>)"
proof -
  have left: "block_step_left = (\<lambda>b. b\<lparr>block_j := block_j b - 1\<rparr>)"
    by (rule ext) (simp add: block_step_left_def)
  show ?thesis
    unfolding step_left_def Let_def list_ex_map left
    by (auto simp: coords_def)
qed

lemma step_right_eq:
  "step_right t =
     (if (\<exists>b \<in> set (blocks t).
            block_j b + 1 > GRID_WIDTH - 1 \<or> (block_i b, block_j b + 1) \<in> other_positions t)
      then t
      else t\<lparr>tet_j := tet_j t + 1,
             blocks := map (\<lambda>b. b\<lparr>block_j := block_j b + 1\<rparr>) (blocks t)\<rparr>)"
proof -
  have right: "block_step_right = (\<lambda>b. b\<lparr>block_j := block_j b + 1\<rparr>)"
    by (rule ext) (simp add: block_step_right_def)
  show ?thesis
    unfolding step_right_def Let_def list_ex_map right
    by (auto simp: coords_def)
qed

lemma turn_clockwise_sel:
  "block_i (turn_clockwise t b) = tet_i t + (block_j b - tet_j t)"
  "block_j (turn_clockwise t b) = tet_j t - (block_i b - tet_i t)"
  "block_color (turn_clockwise t b) = block_color b"
  by (simp_all add: turn_clockwise_def set_coords_def Let_def)

lemma turn_anticlockwise_sel:
  "block_i (turn_anticlockwise t b) = tet_i t - (block_j b - tet_j t)"
  "block_j (turn_anticlockwise t b) = tet_j t + (block_i b - tet_i t)"
  "block_color (turn_anticlockwise t b) = block_color b"
  by (simp_all add: turn_anticlockwise_def set_coords_def Let_def)

lemma check_boundaries_other_positions:
  "check_boundaries (t\<lparr>other_positions := S\<rparr>) =
     map_sum id (\<lambda>r. r\<lparr>other_positions := S\<rparr>) (check_boundaries t)"
  by (simp add: check_boundaries_def split: sum.splits)

lemma check_boundaries_length:
  "check_boundaries t = Inr r \<Longrightarrow> length (blocks r) = length (blocks t)"
  by (auto simp: check_boundaries_def split: sum.splits if_splits)

lemma step_down_fields:
  "other_positions (step_down t) = other_positions t"
  "variant (step_down t) = variant t"
  "length (blocks (step_down t)) = length (blocks t)"
  by (simp_all add: step_down_def Let_def)

lemma step_left_fields:
  "other_positions (step_left t) = other_positions t"
  "variant (step_left t) = variant t"
  "length (blocks (step_left t)) = length (blocks t)"
  "tet_done (step_left t) = tet_done t"
  by (simp_all add: step_left_def Let_def)

lemma step_right_fields:
  "other_positions (step_right t) = other_positions t"
  "variant (step_right t) = variant t"
  "length (blocks (step_right t)) = length (blocks t)"
  "tet_done (step_right t) = tet_done t"
  by (simp_all add: step_right_def Let_def)

lemma piece_ok_step_down:
  assumes "piece_ok t"
  shows "piece_ok (step_down t)"
proof -
  from assms have "compact (blocks t)" by (simp add: piece_ok_def)
  then have "compact (map block_step_down (blocks t))"
    by (rule compact_map_translate [where di = 1 and dj = 0])
       (simp_all add: block_step_down_def)
  moreover from assms have "cols_ok (map block_step_down (blocks t))"
    by (simp add: piece_ok_def cols_ok_def list_all_iff block_step_down_def)
  ultimately show ?thesis
    using assms by (simp add: step_down_def Let_def piece_ok_def)
qed

lemma piece_ok_step_left:
  assumes "piece_ok t"
  shows "piece_ok (step_left t)"
proof -
  let ?f = "\<lambda>b. b\<lparr>block_j := block_j b - 1\<rparr>"
  from assms have "compact (blocks t)" by (simp add: piece_ok_def)
  then have c: "compact (map ?f (blocks t))"
    by (rule compact_map_translate [where di = 0 and dj = "- 1"]) simp_all
  have "cols_ok (map ?f (blocks t))"
    if "\<not> (\<exists>b \<in> set (blocks t).
            block_j b - 1 < 0 \<or> (block_i b, block_j b - 1) \<in> other_positions t)"
  proof (rule cols_ok_map)
    fix b assume b: "b \<in> set (blocks t)"
    from assms have "cols_ok (blocks t)" by (simp add: piece_ok_def)
    from cols_okD [OF this b] that b
    show "0 \<le> block_j (?f b) \<and> block_j (?f b) < GRID_WIDTH" by auto
  qed
  with c assms show ?thesis
    by (simp add: step_left_eq piece_ok_def)
qed

lemma piece_ok_step_right:
  assumes "piece_ok t"
  shows "piece_ok (step_right t)"
proof -
  let ?f = "\<lambda>b. b\<lparr>block_j := block_j b + 1\<rparr>"
  from assms have "compact (blocks t)" by (simp add: piece_ok_def)
  then have c: "compact (map ?f (blocks t))"
    by (rule compact_map_translate [where di = 0 and dj = 1]) simp_all
  have "cols_ok (map ?f (blocks t))"
    if "\<not> (\<exists>b \<in> set (blocks t).
            block_j b + 1 > GRID_WIDTH - 1 \<or> (block_i b, block_j b + 1) \<in> other_positions t)"
  proof (rule cols_ok_map)
    fix b assume b: "b \<in> set (blocks t)"
    from assms have "cols_ok (blocks t)" by (simp add: piece_ok_def)
    from cols_okD [OF this b] that b
    show "0 \<le> block_j (?f b) \<and> block_j (?f b) < GRID_WIDTH" by auto
  qed
  with c assms show ?thesis
    by (simp add: step_right_eq piece_ok_def)
qed

lemma piece_ok_rotate_clockwise:
  assumes "piece_ok t"
  shows "\<exists>t'. rotate_clockwise t = Inr t' \<and> piece_ok t' \<and>
           other_positions t' = other_positions t \<and> tet_done t' = tet_done t"
proof -
  let ?u = "t\<lparr>blocks := map (turn_clockwise t) (blocks t)\<rparr>"
  from assms have "compact (blocks t)" by (simp add: piece_ok_def)
  then have "compact (map (turn_clockwise t) (blocks t))"
    by (rule compact_map_turn [where s = 1 and ci = "tet_i t - tet_j t"
          and cj = "tet_j t + tet_i t"])
       (simp_all add: turn_clockwise_sel)
  then have c: "compact (blocks ?u)" by simp
  from assms have l: "length (blocks ?u) = 4" by (simp add: piece_ok_def)
  from check_boundaries_ok [OF l c] assms show ?thesis
    by (auto simp: rotate_clockwise_def piece_ok_def)
qed

lemma piece_ok_rotate_anticlockwise:
  assumes "piece_ok t"
  shows "\<exists>t'. rotate_anticlockwise t = Inr t' \<and> piece_ok t' \<and>
           other_positions t' = other_positions t \<and> tet_done t' = tet_done t"
proof -
  let ?u = "t\<lparr>blocks := map (turn_anticlockwise t) (blocks t)\<rparr>"
  from assms have "compact (blocks t)" by (simp add: piece_ok_def)
  then have "compact (map (turn_anticlockwise t) (blocks t))"
    by (rule compact_map_turn [where s = "- 1" and ci = "tet_i t + tet_j t"
          and cj = "tet_j t - tet_i t"])
       (simp_all add: turn_anticlockwise_sel)
  then have c: "compact (blocks ?u)" by simp
  from assms have l: "length (blocks ?u) = 4" by (simp add: piece_ok_def)
  from check_boundaries_ok [OF l c] assms show ?thesis
    by (auto simp: rotate_anticlockwise_def piece_ok_def)
qed

lemma on_keydown_ok:
  assumes "piece_ok t"
  shows "\<exists>t'. on_keydown k t = Inr t' \<and> piece_ok t' \<and>
           other_positions t' = other_positions t"
proof (cases k)
  case K_x
  with piece_ok_rotate_clockwise [OF assms] show ?thesis
    by (auto simp: on_keydown_def)
next
  case K_y
  with piece_ok_rotate_anticlockwise [OF assms] show ?thesis
    by (auto simp: on_keydown_def)
next
  case K_LEFT
  with piece_ok_step_left [OF assms] show ?thesis
    by (simp add: on_keydown_def step_left_fields)
next
  case K_RIGHT
  with piece_ok_step_right [OF assms] show ?thesis
    by (simp add: on_keydown_def step_right_fields)
next
  case K_DOWN
  with piece_ok_step_down [OF assms] show ?thesis
    by (simp add: on_keydown_def step_down_fields)
next
  case K_other
  with assms show ?thesis by (simp add: on_keydown_def)
qed

lemma process_events_ok:
  "piece_ok t \<Longrightarrow>
   \<exists>q t'. process_events evs t = Inr (q, t') \<and> piece_ok t' \<and>
          other_positions t' = other_positions t"
proof (induction evs t rule: process_events.induct)
  case (3 k evs t)
  from on_keydown_ok [OF "3.prems", of k]
  obtain t1 where t1: "on_keydown k t = Inr t1" "piece_ok t1"
    "other_positions t1 = other_positions t" by blast
  from "3.IH" [OF t1(1) t1(2)] t1 show ?case by simp
qed auto

lemma random_choice_classes: "random_choice r tetromino_classes \<in> set tetromino_classes"
  unfolding random_choice_def by (rule nth_mem) (simp add: tetromino_classes_def)

lemma new_tetromino_ok:
  assumes "s \<in> set tetromino_classes"
  shows "\<exists>t. new_tetromino s (fst START_POSITION) (snd START_POSITION) S = Inr t \<and>
           piece_ok t \<and> other_positions t = S \<and> variant t = s \<and> \<not> tet_done t \<and>
           list_all (\<lambda>b. - 1 \<le> block_i b \<and> block_i b \<le> 2) (blocks t)"
  using assms
  by (auto simp: tetromino_classes_def new_tetromino_def center_coords_def START_POSITION_def
        piece_ok_def compact_def cols_ok_def GRID_WIDTH_def)

lemma spawn_ok:
  "\<exists>t. spawn r g = Inr t \<and> piece_ok t \<and> other_positions t = positions g \<and>
       variant t = random_choice r tetromino_classes \<and> \<not> tet_done t \<and>
       list_all (\<lambda>b. - 1 \<le> block_i b \<and> block_i b \<le> 2) (blocks t)"
  using new_tetromino_ok [OF random_choice_classes, of r "positions g"]
  by (simp add: spawn_def)

lemma fold_insert_coords:
  "fold (\<lambda>block s. insert (coords block) s) bs S = S \<union> coords ` set bs"
  by (induction bs arbitrary: S) auto

lemma update_blocks_fields:
  "positions (update_blocks g bs) = positions g \<union> coords ` set bs"
  "grid_blocks (update_blocks g bs) = grid_blocks g @ bs"
  by (simp_all add: update_blocks_def fold_insert_coords)

lemma cols_ok_append: "cols_ok (xs @ ys) \<longleftrightarrow> cols_ok xs \<and> cols_ok ys"
  by (simp add: cols_ok_def)

lemma piece_ok_other_positions:
  "piece_ok (t\<lparr>other_positions := S\<rparr>) = piece_ok t"
  by (simp add: piece_ok_def)

lemma settle_not_done: "\<not> tet_done (active_tetromino g) \<Longrightarrow> settle r g = Inr g"
  by (simp add: settle_def)

lemma settle_done:
  assumes "tet_done (active_tetromino g)"
  shows "\<exists>g'. settle r g = Inr g' \<and>
           grid g' = update_blocks (grid g) (blocks (active_tetromino g)) \<and>
           (game_over g' \<longleftrightarrow> game_over g \<or> START_POSITION \<in> positions (grid g')) \<and>
           counter g' = counter g \<and> returned g' = returned g \<and>
           (if START_POSITION \<in> positions (grid g')
            then active_tetromino g' =
                   (active_tetromino g)\<lparr>other_positions := positions (grid g')\<rparr>
            else spawn r (grid g') = Inr (active_tetromino g'))"
proof -
  let ?gr = "update_blocks (grid g) (blocks (active_tetromino g))"
  from spawn_ok [of r ?gr] obtain t where "spawn r ?gr = Inr t" by blast
  with assms show ?thesis by (simp add: settle_def Let_def)
qed

lemma settle_ok:
  assumes ok: "game_ok g" and run: "\<not> game_over g"
  shows "\<exists>g'. settle r g = Inr g' \<and> game_ok g' \<and> returned g' = returned g"
proof (cases "tet_done (active_tetromino g)")
  case False
  with ok show ?thesis by (simp add: settle_not_done)
next
  case True
  let ?gr = "update_blocks (grid g) (blocks (active_tetromino g))"
  from settle_done [OF True, of r] obtain g' where g':
    "settle r g = Inr g'" "grid g' = ?gr"
    "game_over g' \<longleftrightarrow> game_over g \<or> START_POSITION \<in> positions (grid g')"
    "returned g' = returned g"
    "if START_POSITION \<in> positions (grid g')
     then active_tetromino g' = (active_tetromino g)\<lparr>other_positions := positions (grid g')\<rparr>
     else spawn r (grid g') = Inr (active_tetromino g')"
    by blast
  from ok have grid_ok: "cols_ok (grid_blocks ?gr)"
    "positions ?gr = coords ` set (grid_blocks ?gr)"
    by (auto simp: game_ok_def update_blocks_fields cols_ok_append piece_ok_def)
  have act: "piece_ok (active_tetromino g') \<and>
             other_positions (active_tetromino g') = positions (grid g')"
  proof (cases "START_POSITION \<in> positions (grid g')")
    case True
    with g'(5) ok show ?thesis by (simp add: game_ok_def piece_ok_other_positions)
  next
    case False
    with g'(5) spawn_ok [of r "grid g'"] show ?thesis by auto
  qed
  with g' grid_ok run show ?thesis by (simp add: game_ok_def)
qed

lemma frame_ok:
  assumes ok: "game_ok g"
  shows "\<exists>g'. frame r evs g = Inr g' \<and> game_ok g'"
proof (cases "game_over g \<or> returned g")
  case True
  with ok show ?thesis by (simp add: frame_def)
next
  case False
  from ok have p: "piece_ok (active_tetromino g)" by (simp add: game_ok_def)
  from process_events_ok [OF p, of evs] obtain q t where t:
    "process_events evs (active_tetromino g) = Inr (q, t)" "piece_ok t"
    "other_positions t = other_positions (active_tetromino g)" by blast
  show ?thesis
  proof (cases q)
    case True
    with False t ok show ?thesis by (auto simp: frame_def game_ok_def)
  next
    case nq: False
    let ?t' = "if counter g = 30 then step_down t else t"
    let ?g = "g\<lparr>active_tetromino := ?t', counter := (if counter g = 30 then 0 else counter g) + 1\<rparr>"
    from t ok have "game_ok ?g"
      by (simp add: game_ok_def piece_ok_step_down step_down_fields)
    moreover from False have "\<not> game_over ?g" by simp
    ultimately obtain g' where "settle r ?g = Inr g'" "game_ok g'"
      using settle_ok by blast
    with False nq t(1) show ?thesis by (simp add: frame_def Let_def)
  qed
qed

lemma frames_ok: "game_ok g \<Longrightarrow> \<exists>g'. frames passes g = Inr g' \<and> game_ok g'"
proof (induction passes arbitrary: g)
  case Nil
  then show ?case by simp
next
  case (Cons p passes)
  obtain r evs where p: "p = (r, evs)" by (cases p)
  from frame_ok [OF Cons.prems, of r evs] obtain g1 where
    g1: "frame r evs g = Inr g1" "game_ok g1" by blast
  from Cons.IH [OF g1(2)] g1(1) p show ?case by simp
qed

lemma start_ok: "\<exists>g. start r = Inr g \<and> game_ok g"
proof -
  from spawn_ok [of r new_grid] obtain t where
    "spawn r new_grid = Inr t" "piece_ok t" "other_positions t = positions new_grid" by blast
  then show ?thesis
    by (simp add: start_def game_ok_def new_grid_def cols_ok_def START_POSITION_def)
qed

lemma main_ok: "\<exists>g. main r0 passes = Inr g \<and> game_ok g"
proof -
  from start_ok [of r0] obtain g0 where g0: "start r0 = Inr g0" "game_ok g0" by blast
  from frames_ok [OF g0(2), of passes] g0(1) show ?thesis by (simp add: main_def)
qed

section \<open>The operations of a piece\<close>

text \<open>Claim C1. \<^verbatim>\<open>step_down\<close> looks at every block one row lower. If one of these rows is
  at least \<^verbatim>\<open>GRID_HEIGHT\<close>, or one of these coordinates is occupied, the piece is marked
  done and nothing else of it changes: no block and not the reference coordinate.
  Otherwise all blocks are replaced by the lowered ones at once (and the reference
  coordinate moves with them).\<close>

theorem step_down_spec:
  "step_down t =
     (if (\<exists>b \<in> set (blocks t).
            block_i b + 1 \<ge> GRID_HEIGHT \<or> (block_i b + 1, block_j b) \<in> other_positions t)
      then t\<lparr>tet_done := True\<rparr>
      else t\<lparr>tet_i := tet_i t + 1,
             blocks := map (\<lambda>b. b\<lparr>block_i := block_i b + 1\<rparr>) (blocks t)\<rparr>)"
proof -
  have lower: "block_step_down = (\<lambda>b. b\<lparr>block_i := block_i b + 1\<rparr>)"
    by (rule ext) (simp add: block_step_down_def)
  show ?thesis
    unfolding step_down_def Let_def list_ex_map lower
    by (auto simp: coords_def)
qed

theorem step_down_spec_witness:
  "step_down I_spawned =
     I_spawned\<lparr>tet_i := 1,
       blocks := [\<lparr>block_i = 0, block_j = 4, block_color = CYAN\<rparr>,
                  \<lparr>block_i = 1, block_j = 4, block_color = CYAN\<rparr>,
                  \<lparr>block_i = 2, block_j = 4, block_color = CYAN\<rparr>,
                  \<lparr>block_i = 3, block_j = 4, block_color = CYAN\<rparr>]\<rparr> \<and>
   step_down I_landed = I_landed\<lparr>tet_done := True\<rparr>"
  using step_down_spec [of I_spawned] step_down_spec [of I_landed]
  by (simp add: I_spawned_def I_landed_def GRID_HEIGHT_def)

text \<open>Claim C3. On a piece that has a block, \<^verbatim>\<open>_check_boundaries\<close> returns normally and
  corrects at most one axis, in this order: when the least column is negative, every
  block moves right by the deficit; otherwise, when the greatest column exceeds
  \<^verbatim>\<open>GRID_WIDTH - 1\<close>, every block moves left by the excess; otherwise, when the greatest
  row exceeds \<^verbatim>\<open>GRID_HEIGHT - 1\<close>, every block moves up by the excess; otherwise nothing
  changes.\<close>

theorem check_boundaries_spec:
  assumes "blocks t \<noteq> []"
  shows "check_boundaries t =
     (let min_j = Min (block_j ` set (blocks t));
          max_j = Max (block_j ` set (blocks t));
          max_i = Max (block_i ` set (blocks t))
      in Inr (if min_j < 0
           then t\<lparr>blocks := map (\<lambda>b. b\<lparr>block_j := block_j b + (0 - min_j)\<rparr>) (blocks t)\<rparr>
           else if max_j > GRID_WIDTH - 1
           then t\<lparr>blocks :=
                  map (\<lambda>b. b\<lparr>block_j := block_j b - (max_j - (GRID_WIDTH - 1))\<rparr>) (blocks t)\<rparr>
           else if max_i > GRID_HEIGHT - 1
           then t\<lparr>blocks :=
                  map (\<lambda>b. b\<lparr>block_i := block_i b - (max_i - (GRID_HEIGHT - 1))\<rparr>) (blocks t)\<rparr>
           else t))"
proof -
  have sj: "shift_j = (\<lambda>d b. b\<lparr>block_j := block_j b - d\<rparr>)"
    by (intro ext) (simp add: shift_j_def)
  have si: "shift_i = (\<lambda>d b. b\<lparr>block_i := block_i b - d\<rparr>)"
    by (intro ext) (simp add: shift_i_def)
  show ?thesis
    unfolding check_boundaries_Inr [OF assms] sj si
    by (simp add: Let_def algebra_simps)
qed

theorem check_boundaries_spec_witness:
  "blocks L_turned \<noteq> [] \<and>
   check_boundaries L_turned =
     Inr (L_turned\<lparr>blocks := [\<lparr>block_i = 18, block_j = 2, block_color = BLUE\<rparr>,
                                \<lparr>block_i = 18, block_j = 1, block_color = BLUE\<rparr>,
                                \<lparr>block_i = 18, block_j = 0, block_color = BLUE\<rparr>,
                                \<lparr>block_i = 19, block_j = 0, block_color = BLUE\<rparr>]\<rparr>)"
proof -
  have ne: "blocks L_turned \<noteq> []" by (simp add: L_turned_def)
  show ?thesis
    using check_boundaries_spec [OF ne] ne by (simp add: L_turned_def)
qed

text \<open>Claim C4. For a piece whose blocks lie in the columns of the grid, \<^verbatim>\<open>step_left\<close>
  and \<^verbatim>\<open>step_right\<close> look at every block one column to the left or right. If one of
  these columns is outside \<^verbatim>\<open>0 .. GRID_WIDTH - 1\<close>, or one of these coordinates is
  occupied, the piece is returned as it was: no block, not the reference coordinate and
  not the done flag changes. Otherwise all blocks are replaced by the moved ones.\<close>

theorem step_left_right_spec:
  assumes "cols_ok (blocks t)"
  shows "step_left t =
     (if (\<exists>b \<in> set (blocks t).
            block_j b - 1 \<notin> {0 .. GRID_WIDTH - 1} \<or>
            (block_i b, block_j b - 1) \<in> other_positions t)
      then t
      else t\<lparr>tet_j := tet_j t - 1,
             blocks := map (\<lambda>b. b\<lparr>block_j := block_j b - 1\<rparr>) (blocks t)\<rparr>) \<and>
   step_right t =
     (if (\<exists>b \<in> set (blocks t).
            block_j b + 1 \<notin> {0 .. GRID_WIDTH - 1} \<or>
            (block_i b, block_j b + 1) \<in> other_positions t)
      then t
      else t\<lparr>tet_j := tet_j t + 1,
             blocks := map (\<lambda>b. b\<lparr>block_j := block_j b + 1\<rparr>) (blocks t)\<rparr>)"
proof -
  have l: "block_j b - 1 \<notin> {0 .. GRID_WIDTH - 1} \<longleftrightarrow> block_j b - 1 < 0"
    and r: "block_j b + 1 \<notin> {0 .. GRID_WIDTH - 1} \<longleftrightarrow> block_j b + 1 > GRID_WIDTH - 1"
    if "b \<in> set (blocks t)" for b
    using cols_okD [OF assms that] by auto
  have "(\<exists>b \<in> set (blocks t). block_j b - 1 \<notin> {0 .. GRID_WIDTH - 1} \<or>
            (block_i b, block_j b - 1) \<in> other_positions t) \<longleftrightarrow>
        (\<exists>b \<in> set (blocks t). block_j b - 1 < 0 \<or>
            (block_i b, block_j b - 1) \<in> other_positions t)"
    using l by blast
  moreover have "(\<exists>b \<in> set (blocks t). block_j b + 1 \<notin> {0 .. GRID_WIDTH - 1} \<or>
            (block_i b, block_j b + 1) \<in> other_positions t) \<longleftrightarrow>
        (\<exists>b \<in> set (blocks t). block_j b + 1 > GRID_WIDTH - 1 \<or>
            (block_i b, block_j b + 1) \<in> other_positions t)"
    using r by blast
  ultimately show ?thesis
    by (simp only: step_left_eq [of t] step_right_eq [of t] simp_thms)
qed

theorem step_left_right_spec_witness:
  "cols_ok (blocks I_left_edge) \<and>
   step_left I_left_edge = I_left_edge \<and>
   step_right I_left_edge =
     I_left_edge\<lparr>tet_j := 1,
       blocks := [\<lparr>block_i = - 1, block_j = 1, block_color = CYAN\<rparr>,
                  \<lparr>block_i = 0, block_j = 1, block_color = CYAN\<rparr>,
                  \<lparr>block_i = 1, block_j = 1, block_color = CYAN\<rparr>,
                  \<lparr>block_i = 2, block_j = 1, block_color = CYAN\<rparr>]\<rparr>"
proof -
  have ok: "cols_ok (blocks I_left_edge)"
    by (simp add: cols_ok_def I_left_edge_def GRID_WIDTH_def)
  show ?thesis
    using step_left_right_spec [OF ok] ok
    by (simp add: I_left_edge_def GRID_WIDTH_def)
qed

text \<open>
  Claim C2. Rotating a piece turns every block about the reference coordinate: a block at
  offset \<open>(di, dj)\<close> from the reference \<open>(i, j)\<close> goes to
  \<open>(i + dj, j - di)\<close> when turning clockwise and to \<open>(i - dj, j + di)\<close> when
  turning anticlockwise, keeping its colour; then the boundary correction runs.  The set of
  occupied coordinates is never consulted, so the result does not depend on it, and on a piece
  with at least one block the rotation returns a piece with the same number of blocks.
\<close>

theorem rotate_spec:
  "rotate_clockwise t =
     check_boundaries (t\<lparr>blocks := map (turn_clockwise t) (blocks t)\<rparr>) \<and>
   rotate_anticlockwise t =
     check_boundaries (t\<lparr>blocks := map (turn_anticlockwise t) (blocks t)\<rparr>) \<and>
   offset t (turn_clockwise t b) = (snd (offset t b), - fst (offset t b)) \<and>
   coords (turn_clockwise t b) = (tet_i t + snd (offset t b), tet_j t - fst (offset t b)) \<and>
   offset t (turn_anticlockwise t b) = (- snd (offset t b), fst (offset t b)) \<and>
   coords (turn_anticlockwise t b) = (tet_i t - snd (offset t b), tet_j t + fst (offset t b)) \<and>
   block_color (turn_clockwise t b) = block_color b \<and>
   block_color (turn_anticlockwise t b) = block_color b \<and>
   rotate_clockwise (t\<lparr>other_positions := S\<rparr>) =
     map_sum id (\<lambda>r. r\<lparr>other_positions := S\<rparr>) (rotate_clockwise t) \<and>
   rotate_anticlockwise (t\<lparr>other_positions := S\<rparr>) =
     map_sum id (\<lambda>r. r\<lparr>other_positions := S\<rparr>) (rotate_anticlockwise t) \<and>
   (blocks t \<noteq> [] \<longrightarrow>
     (\<exists>r. rotate_clockwise t = Inr r \<and> length (blocks r) = length (blocks t)) \<and>
     (\<exists>r. rotate_anticlockwise t = Inr r \<and> length (blocks r) = length (blocks t)))"
proof -
  have cw: "turn_clockwise (t\<lparr>other_positions := S\<rparr>) = turn_clockwise t"
    and acw: "turn_anticlockwise (t\<lparr>other_positions := S\<rparr>) = turn_anticlockwise t"
    by (intro ext, simp add: turn_clockwise_def turn_anticlockwise_def)+
  have swap: "t\<lparr>other_positions := S, blocks := X\<rparr> = t\<lparr>blocks := X, other_positions := S\<rparr>"
    for X by (cases t) simp
  have indep_cw: "rotate_clockwise (t\<lparr>other_positions := S\<rparr>) =
      map_sum id (\<lambda>r. r\<lparr>other_positions := S\<rparr>) (rotate_clockwise t)"
  proof -
    have "rotate_clockwise (t\<lparr>other_positions := S\<rparr>) =
        check_boundaries ((t\<lparr>blocks := map (turn_clockwise t) (blocks t)\<rparr>)\<lparr>other_positions := S\<rparr>)"
      by (simp add: rotate_clockwise_def cw swap)
    also have "\<dots> = map_sum id (\<lambda>r. r\<lparr>other_positions := S\<rparr>)
        (check_boundaries (t\<lparr>blocks := map (turn_clockwise t) (blocks t)\<rparr>))"
      by (rule check_boundaries_other_positions)
    finally show ?thesis by (simp only: rotate_clockwise_def)
  qed
  have indep_acw: "rotate_anticlockwise (t\<lparr>other_positions := S\<rparr>) =
      map_sum id (\<lambda>r. r\<lparr>other_positions := S\<rparr>) (rotate_anticlockwise t)"
  proof -
    have "rotate_anticlockwise (t\<lparr>other_positions := S\<rparr>) =
        check_boundaries ((t\<lparr>blocks := map (turn_anticlockwise t) (blocks t)\<rparr>)\<lparr>other_positions := S\<rparr>)"
      by (simp add: rotate_anticlockwise_def acw swap)
    also have "\<dots> = map_sum id (\<lambda>r. r\<lparr>other_positions := S\<rparr>)
        (check_boundaries (t\<lparr>blocks := map (turn_anticlockwise t) (blocks t)\<rparr>))"
      by (rule check_boundaries_other_positions)
    finally show ?thesis by (simp only: rotate_anticlockwise_def)
  qed
  have ret: "\<exists>r. check_boundaries (t\<lparr>blocks := map f (blocks t)\<rparr>) = Inr r \<and>
                 length (blocks r) = length (blocks t)"
    if "blocks t \<noteq> []" for f
  proof -
    from that have "blocks (t\<lparr>blocks := map f (blocks t)\<rparr>) \<noteq> []" by simp
    from check_boundaries_Inr [OF this]
    obtain r where r: "check_boundaries (t\<lparr>blocks := map f (blocks t)\<rparr>) = Inr r"
      by blast
    from check_boundaries_length [OF r] r show ?thesis by simp
  qed
  show ?thesis
    using indep_cw indep_acw ret
    by (simp add: rotate_clockwise_def rotate_anticlockwise_def offset_def coords_def
          turn_clockwise_sel turn_anticlockwise_sel)
qed

theorem rotate_spec_witness:
  "blocks L_corner \<noteq> [] \<and>
   rotate_clockwise L_corner =
     Inr (L_corner\<lparr>blocks := [\<lparr>block_i = 18, block_j = 2, block_color = BLUE\<rparr>,
                               \<lparr>block_i = 18, block_j = 1, block_color = BLUE\<rparr>,
                               \<lparr>block_i = 18, block_j = 0, block_color = BLUE\<rparr>,
                               \<lparr>block_i = 19, block_j = 0, block_color = BLUE\<rparr>]\<rparr>) \<and>
   (\<exists>r. rotate_anticlockwise L_corner = Inr r \<and> length (blocks r) = 4)"
proof -
  have ne: "blocks L_corner \<noteq> []" by (simp add: L_corner_def)
  have turned: "L_corner\<lparr>blocks := map (turn_clockwise L_corner) (blocks L_corner)\<rparr> = L_turned"
    by (simp add: L_corner_def L_turned_def turn_clockwise_def set_coords_def)
  have cb: "check_boundaries L_turned =
     Inr (L_corner\<lparr>blocks := [\<lparr>block_i = 18, block_j = 2, block_color = BLUE\<rparr>,
                               \<lparr>block_i = 18, block_j = 1, block_color = BLUE\<rparr>,
                               \<lparr>block_i = 18, block_j = 0, block_color = BLUE\<rparr>,
                               \<lparr>block_i = 19, block_j = 0, block_color = BLUE\<rparr>]\<rparr>)"
    by (simp add: check_boundaries_def py_min_def L_turned_def L_corner_def shift_j_def)
  note spec = rotate_spec [where t = L_corner and b = "hd (blocks L_corner)" and S = "{}"]
  from spec have "rotate_clockwise L_corner =
      check_boundaries (L_corner\<lparr>blocks := map (turn_clockwise L_corner) (blocks L_corner)\<rparr>)"
    by (rule conjunct1)
  with turned cb have cw: "rotate_clockwise L_corner =
     Inr (L_corner\<lparr>blocks := [\<lparr>block_i = 18, block_j = 2, block_color = BLUE\<rparr>,
                               \<lparr>block_i = 18, block_j = 1, block_color = BLUE\<rparr>,
                               \<lparr>block_i = 18, block_j = 0, block_color = BLUE\<rparr>,
                               \<lparr>block_i = 19, block_j = 0, block_color = BLUE\<rparr>]\<rparr>)"
    by (simp only:)
  from spec ne have "\<exists>r. rotate_anticlockwise L_corner = Inr r \<and>
      length (blocks r) = length (blocks L_corner)"
    by blast
  moreover have "length (blocks L_corner) = 4" by (simp add: L_corner_def)
  ultimately have "\<exists>r. rotate_anticlockwise L_corner = Inr r \<and> length (blocks r) = 4"
    by simp
  with ne cw show ?thesis by (intro conjI)
qed

end
